theory Spec2Isabelle
  imports Main
begin

section \<open>The DuckDNS updater (main.go) as HOL functions\<close>

text \<open>
  The program resolves an update request (a token and a list of subdomain names) from
  the command line, the environment and a YAML file, then sends one HTTP GET per name.
  Everything the Go code reads from outside (environment variables, files, the YAML
  decoder's verdict, HTTP responses) is a field of a \<open>world\<close> value, and everything it
  does to the outside is an \<open>event\<close> of a trace the functions return. Go strings are
  byte strings: \<open>string\<close>. A Go \<open>error\<close> is modelled by its message.
  Log output (logrus.Debugf, .Error) is not part of the model; \<open>logrus.Fatal\<close> is, as
  the exit of the process with status 1.
\<close>

subsection \<open>The parts of Go's strings package that main.go relies on\<close>

text \<open>\<open>strings.HasPrefix\<close>: \<open>len(s) >= len(prefix) && s[:len(prefix)] == prefix\<close>.\<close>

definition strings_HasPrefix :: "string \<Rightarrow> string \<Rightarrow> bool" where
  "strings_HasPrefix s prefix \<longleftrightarrow> length s \<ge> length prefix \<and> take (length prefix) s = prefix"

text \<open>\<open>strings.HasSuffix\<close>: \<open>len(s) >= len(suffix) && s[len(s)-len(suffix):] == suffix\<close>.\<close>

definition strings_HasSuffix :: "string \<Rightarrow> string \<Rightarrow> bool" where
  "strings_HasSuffix s suffix \<longleftrightarrow>
     length s \<ge> length suffix \<and> drop (length s - length suffix) s = suffix"

text \<open>
  \<open>strings.Index\<close>: the index of the first instance of \<open>substr\<close> in \<open>s\<close>, or \<open>-1\<close>
  when there is none.
\<close>

fun strings_Index :: "string \<Rightarrow> string \<Rightarrow> int" where
  "strings_Index [] substr = (if substr = [] then 0 else - 1)"
| "strings_Index (c # cs) substr =
     (if strings_HasPrefix (c # cs) substr then 0
      else (let i = strings_Index cs substr in if i < 0 then - 1 else i + 1))"

text \<open>\<open>strings.Contains\<close>: \<open>Index(s, substr) >= 0\<close>.\<close>

definition strings_Contains :: "string \<Rightarrow> string \<Rightarrow> bool" where
  "strings_Contains s substr \<longleftrightarrow> strings_Index s substr \<ge> 0"

text \<open>
  \<open>strings.Split(s, sep)\<close>, that is \<open>genSplit(s, sep, 0, -1)\<close>: cut \<open>s\<close> at the first
  instance of \<open>sep\<close>, keep what is before it, go on behind it; what is left when \<open>sep\<close>
  occurs no more is the last field. Go bounds the loop by \<open>Count(s, sep)\<close>, the number
  of non-overlapping instances, which is the number of cuts this recursion makes.
  With an empty separator Go explodes \<open>s\<close> into its UTF-8 sequences; the program never
  does that (its separator is one space), and the model explodes into bytes.
\<close>

function strings_Split :: "string \<Rightarrow> string \<Rightarrow> string list" where
  "strings_Split s sep =
     (if sep = [] then map (\<lambda>c. [c]) s
      else (let m = strings_Index s sep in
            if m < 0 then [s]
            else take (nat m) s # strings_Split (drop (nat m + length sep) s) sep))"
  by pat_completeness auto
termination
proof (relation "measure (\<lambda>(s, sep). length s)")
  show "wf (measure (\<lambda>(s, sep). length s))" by simp
next
  fix s sep :: string and m :: int
  assume "sep \<noteq> []" and m: "m = strings_Index s sep" and "\<not> m < 0"
  then have "s \<noteq> []" by (cases s) auto
  then show "((drop (nat m + length sep) s, sep), (s, sep)) \<in> measure (\<lambda>(s, sep). length s)"
    using \<open>sep \<noteq> []\<close> by simp
qed

declare strings_Split.simps [simp del]

text \<open>\<open>strings.Join\<close>: the elements, with \<open>sep\<close> between each two.\<close>

fun strings_Join :: "string list \<Rightarrow> string \<Rightarrow> string" where
  "strings_Join [] sep = []"
| "strings_Join [a] sep = a"
| "strings_Join (a # b # bs) sep = a @ sep @ strings_Join (b # bs) sep"

subsection \<open>Data\<close>

text \<open>\<open>type Update struct\<close>. A nil slice and an empty slice both are \<open>[]\<close>.\<close>

record Update =
  Token :: string
  Names :: "string list"

text \<open>\<open>type CLIOptions struct\<close>, as pflag has filled it.\<close>

record CLIOptions =
  cli_Debug :: bool
  cli_File :: string
  cli_Token :: string
  cli_Names :: "string list"

text \<open>What one \<open>http.Get\<close> followed by \<open>ioutil.ReadAll\<close> of the body can give.\<close>

datatype http_result =
    GetFailed string
  | ReadAllFailed string
  | Body string

text \<open>
  The outside of the process: the environment, \<open>ioutil.ReadFile\<close> (\<open>Inl\<close> the error),
  \<open>yaml.Unmarshal\<close> into a zero \<open>Update\<close> (\<open>Inl\<close> the error), and the answer to the
  \<open>k\<close>-th HTTP request of the run, which may depend on \<open>k\<close> as well as on the URL.
\<close>

record world =
  environ :: "string \<Rightarrow> string option"
  files :: "string \<Rightarrow> string + string"
  yaml_Unmarshal :: "string \<Rightarrow> string + Update"
  network :: "nat \<Rightarrow> string \<Rightarrow> http_result"

text \<open>What the process does to the outside, in order.\<close>

datatype event =
    Getenv string
  | ReadFile string
  | HttpGet string

text \<open>How a function that may call \<open>logrus.Fatal\<close> ends.\<close>

datatype 'a outcome =
    Exit nat
  | Return 'a

subsection \<open>Configuration sources\<close>

text \<open>\<open>env.String(key, fallback)\<close> of github.com/TV4/env: the variable when it is set
  and not empty, the fallback otherwise.\<close>

definition env_String :: "world \<Rightarrow> string \<Rightarrow> string \<Rightarrow> string" where
  "env_String w key fallback =
     (case environ w key of
        None \<Rightarrow> fallback
      | Some v \<Rightarrow> if v \<noteq> [] then v else fallback)"

definition Valid :: "Update \<Rightarrow> bool" where
  "Valid u = (if length (Names u) > 0 \<and> Token u \<noteq> [] then True else False)"

definition getConfigCLI :: "CLIOptions \<Rightarrow> Update" where
  "getConfigCLI c = \<lparr>Token = cli_Token c, Names = cli_Names c\<rparr>"

text \<open>\<open>getConfigFile\<close> mutates \<open>existing\<close> through a pointer; the model returns it.\<close>

definition getConfigFile :: "world \<Rightarrow> Update \<Rightarrow> string \<Rightarrow> Update \<times> event list" where
  "getConfigFile w existing file =
     (case files w file of
        Inl err \<Rightarrow> (existing, [ReadFile file])
      | Inr yamlFile \<Rightarrow>
          (case yaml_Unmarshal w yamlFile of
             Inl err \<Rightarrow> (existing, [ReadFile file])
           | Inr update \<Rightarrow>
               (let existing1 =
                      (if Token update = [] then existing
                       else if Token existing = [] then existing\<lparr>Token := Token update\<rparr>
                       else existing);
                    existing2 =
                      (if length (Names update) = 0 then existing1
                       else if length (Names existing1) = 0
                         then existing1\<lparr>Names := Names update\<rparr>
                       else existing1)
                in (existing2, [ReadFile file]))))"

definition getConfigEnv :: "world \<Rightarrow> Update \<Rightarrow> Update \<times> event list" where
  "getConfigEnv w u =
     (let token = env_String w ''DUCK_TOKEN'' [];
          name = env_String w ''DUCK_NAMES'' [];
          u1 = (if Token u = [] then u\<lparr>Token := token\<rparr> else u);
          u2 = (if length (Names u1) = 0 \<and> name \<noteq> []
                then u1\<lparr>Names := strings_Split name '' ''\<rparr> else u1)
      in (u2, [Getenv ''DUCK_TOKEN'', Getenv ''DUCK_NAMES'']))"

subsection \<open>The dispatcher\<close>

text \<open>
  One pass of the \<open>for _, v := range update.Names\<close> loop, for the \<open>k\<close>-th name \<open>v\<close>:
  the state is the slice \<open>errs\<close> and the trace. \<open>fmt.Sprintf\<close> with five \<open>%s\<close> verbs
  and string arguments concatenates them.
\<close>

definition loop_body ::
  "world \<Rightarrow> string \<Rightarrow> nat \<Rightarrow> string \<Rightarrow> string list \<times> event list \<Rightarrow> string list \<times> event list"
where
  "loop_body w token k v st =
     (case st of (errs, tr) \<Rightarrow>
        (let stub = ''https://www.duckdns.org/update?domains='';
             tokenStub = ''&token='';
             ipStub = ''&ip='';
             url = stub @ v @ tokenStub @ token @ ipStub;
             tr1 = tr @ [HttpGet url]
         in case network w k url of
              GetFailed err \<Rightarrow> (errs @ [err], tr1)
            | ReadAllFailed err \<Rightarrow> (errs @ [err], tr1)
            | Body bodyBytes \<Rightarrow>
                if strings_Contains bodyBytes ''KO''
                then (errs @ [''Error updating '' @ v @ '' with DuckDNS''], tr1)
                else (errs, tr1)))"

fun range_Names ::
  "world \<Rightarrow> string \<Rightarrow> nat \<Rightarrow> string list \<Rightarrow> string list \<times> event list \<Rightarrow> string list \<times> event list"
where
  "range_Names w token k [] st = st"
| "range_Names w token k (v # vs) st = range_Names w token (Suc k) vs (loop_body w token k v st)"

text \<open>\<open>makeUpdate\<close>: the returned \<open>error\<close> (\<open>None\<close> is \<open>nil\<close>) and the trace.\<close>

definition makeUpdate :: "world \<Rightarrow> Update \<Rightarrow> (string option \<times> event list) outcome" where
  "makeUpdate w update =
     (if \<not> Valid update then Exit 1
      else (case range_Names w (Token update) 0 (Names update) ([], []) of
              (errs, tr) \<Rightarrow>
                if length errs \<noteq> 0 then Return (Some (strings_Join errs [CHR 0x0A]), tr)
                else Return (None, tr)))"

subsection \<open>main\<close>

text \<open>Lines 171 to 181 of \<open>main\<close>: the request the dispatcher will get, and the reads.\<close>

definition resolveConfig :: "world \<Rightarrow> CLIOptions \<Rightarrow> Update \<times> event list" where
  "resolveConfig w cli =
     (let update0 = getConfigCLI cli;
          (update1, tr1) = (if \<not> Valid update0 then getConfigEnv w update0 else (update0, []));
          (update2, tr2) =
             (if \<not> Valid update1 then getConfigFile w update1 (cli_File cli) else (update1, []))
      in (update2, tr1 @ tr2))"

text \<open>\<open>main\<close> behind \<open>pflag.Parse\<close>: the exit status of the process and its trace.\<close>

definition main :: "world \<Rightarrow> CLIOptions \<Rightarrow> nat \<times> event list" where
  "main w cli =
     (case resolveConfig w cli of
        (update, tr) \<Rightarrow>
          (case makeUpdate w update of
             Exit n \<Rightarrow> (n, tr)
           | Return (None, tr') \<Rightarrow> (0, tr @ tr')
           | Return (Some err, tr') \<Rightarrow> (1, tr @ tr')))"

subsection \<open>Observations\<close>

text \<open>
  The failure messages of a run, name by name: what one pass of the loop for the
  \<open>k\<close>-th name appends to an empty \<open>errs\<close>, in the order of the names.
\<close>

definition recorded :: "world \<Rightarrow> Update \<Rightarrow> string list" where
  "recorded w u =
     concat (map (\<lambda>(k, v). fst (loop_body w (Token u) k v ([], []))) (enumerate 0 (Names u)))"

text \<open>The requests the dispatcher has sent when it returns; none when it exits.\<close>

definition sent :: "world \<Rightarrow> Update \<Rightarrow> event list" where
  "sent w u = (case makeUpdate w u of Exit n \<Rightarrow> [] | Return (err, tr) \<Rightarrow> tr)"


subsection \<open>What Go's net/http does on every machine\<close>

text \<open>
  \<open>stringContainsCTLByte\<close> of net/url: some byte is below \<open>0x20\<close> or is \<open>0x7f\<close>.
\<close>

definition stringContainsCTLByte :: "string \<Rightarrow> bool" where
  "stringContainsCTLByte s = list_ex (\<lambda>b. (of_char b :: nat) < 0x20 \<or> (of_char b :: nat) = 0x7f) s"


subsection \<open>Sample inputs\<close>

text \<open>A machine where every source is filled in and the server accepts every update.\<close>

definition full_world :: world where
  "full_world =
     \<lparr>environ = [''DUCK_TOKEN'' \<mapsto> ''envtoken'', ''DUCK_NAMES'' \<mapsto> ''x y''],
      files = (\<lambda>path. Inr ''token: filetoken'' ),
      yaml_Unmarshal = (\<lambda>bytes. Inr \<lparr>Token = ''filetoken'', Names = [''z'']\<rparr>),
      network = (\<lambda>k url. Body ''OK'')\<rparr>"

text \<open>A machine with an empty environment and no readable file.\<close>

definition bare_world :: world where
  "bare_world =
     \<lparr>environ = (\<lambda>key. None),
      files = (\<lambda>path. Inl ''open: no such file or directory''),
      yaml_Unmarshal = (\<lambda>bytes. Inl ''yaml: unmarshal errors''),
      network = (\<lambda>k url. Body ''OK'')\<rparr>"

text \<open>A machine whose configuration file is there but is not YAML.\<close>

definition broken_yaml_world :: world where
  "broken_yaml_world =
     \<lparr>environ = (\<lambda>key. None),
      files = (\<lambda>path. Inr ''token: [unclosed''),
      yaml_Unmarshal = (\<lambda>bytes. Inl ''yaml: line 1: did not find expected node content''),
      network = (\<lambda>k url. Body ''OK'')\<rparr>"

text \<open>Environments that give the names only, and the token with names two spaces apart.\<close>

definition abc_world :: world where
  "abc_world =
     \<lparr>environ = [''DUCK_NAMES'' \<mapsto> ''a b c''],
      files = (\<lambda>path. Inl ''open: no such file or directory''),
      yaml_Unmarshal = (\<lambda>bytes. Inl ''yaml: unmarshal errors''),
      network = (\<lambda>k url. Body ''OK'')\<rparr>"

definition gap_world :: world where
  "gap_world =
     \<lparr>environ = [''DUCK_TOKEN'' \<mapsto> ''t'', ''DUCK_NAMES'' \<mapsto> ''a  b''],
      files = (\<lambda>path. Inl ''open: no such file or directory''),
      yaml_Unmarshal = (\<lambda>bytes. Inl ''yaml: unmarshal errors''),
      network = (\<lambda>k url. Body ''OK'')\<rparr>"

text \<open>
  Networks: one where the first request cannot connect, the second loses its body, the
  third is refused by the server and the rest succeed; one where the server refuses the
  first two requests, \<open>http.Get\<close> refusing a URL with a control byte as in Go.
\<close>

definition failing_world :: world where
  "failing_world =
     \<lparr>environ = (\<lambda>key. None),
      files = (\<lambda>path. Inl ''open: no such file or directory''),
      yaml_Unmarshal = (\<lambda>bytes. Inl ''yaml: unmarshal errors''),
      network = (\<lambda>k url. if k = 0 then GetFailed ''dial tcp: no route to host''
                          else if k = 1 then ReadAllFailed ''unexpected EOF''
                          else if k = 2 then Body ''KO'' else Body ''OK'')\<rparr>"

definition two_fail_world :: world where
  "two_fail_world =
     \<lparr>environ = (\<lambda>key. None),
      files = (\<lambda>path. Inl ''open: no such file or directory''),
      yaml_Unmarshal = (\<lambda>bytes. Inl ''yaml: unmarshal errors''),
      network = (\<lambda>k url. if stringContainsCTLByte url
                            then GetFailed ''net/url: invalid control character in URL''
                          else if k < 2 then Body ''KO'' else Body ''OK'')\<rparr>"

text \<open>An environment with names two spaces apart and no token, and no readable file.\<close>

definition names_only_world :: world where
  "names_only_world =
     \<lparr>environ = [''DUCK_NAMES'' \<mapsto> ''a  b''],
      files = (\<lambda>path. Inl ''open: no such file or directory''),
      yaml_Unmarshal = (\<lambda>bytes. Inl ''yaml: unmarshal errors''),
      network = (\<lambda>k url. Body ''OK'')\<rparr>"

definition cli_full :: CLIOptions where
  "cli_full =
     \<lparr>cli_Debug = False, cli_File = ''duckdns.yaml'', cli_Token = ''t'',
      cli_Names = [''a'', ''b'']\<rparr>"

definition cli_empty :: CLIOptions where
  "cli_empty =
     \<lparr>cli_Debug = False, cli_File = ''duckdns.yaml'', cli_Token = [], cli_Names = []\<rparr>"

definition cli_names_only :: CLIOptions where
  "cli_names_only =
     \<lparr>cli_Debug = False, cli_File = ''duckdns.yaml'', cli_Token = [], cli_Names = [''z'']\<rparr>"

text \<open>A request with three names.\<close>

definition plain_request :: Update where
  "plain_request = \<lparr>Token = ''t'', Names = [''a'', ''c'', ''d'']\<rparr>"

section \<open>Facts about the string functions\<close>

lemma HasPrefix_iff: "strings_HasPrefix s p \<longleftrightarrow> (\<exists>post. s = p @ post)"
proof
  assume "strings_HasPrefix s p"
  then have "s = p @ drop (length p) s"
    by (metis append_take_drop_id strings_HasPrefix_def)
  then show "\<exists>post. s = p @ post" ..
next
  assume "\<exists>post. s = p @ post"
  then show "strings_HasPrefix s p" by (auto simp: strings_HasPrefix_def)
qed

lemma Index_nonneg_iff: "0 \<le> strings_Index s sub \<longleftrightarrow> (\<exists>pre post. s = pre @ sub @ post)"
proof (induction s)
  case Nil
  then show ?case by auto
next
  case (Cons c cs)
  show ?case
  proof (cases "strings_HasPrefix (c # cs) sub")
    case True
    then obtain post where "c # cs = [] @ sub @ post" by (auto simp: HasPrefix_iff)
    then have "\<exists>pre post. c # cs = pre @ sub @ post" by blast
    with True show ?thesis by simp
  next
    case False
    have "(\<exists>pre post. c # cs = pre @ sub @ post) \<longleftrightarrow> (\<exists>pre post. cs = pre @ sub @ post)"
    proof
      assume "\<exists>pre post. c # cs = pre @ sub @ post"
      then obtain pre post where e: "c # cs = pre @ sub @ post" by blast
      with False have "pre \<noteq> []" by (auto simp: HasPrefix_iff)
      then obtain pre' where "pre = c # pre'" using e by (cases pre) auto
      with e have "cs = pre' @ sub @ post" by simp
      then show "\<exists>pre post. cs = pre @ sub @ post" by blast
    next
      assume "\<exists>pre post. cs = pre @ sub @ post"
      then obtain pre post where "cs = pre @ sub @ post" by blast
      then have "c # cs = (c # pre) @ sub @ post" by simp
      then show "\<exists>pre post. c # cs = pre @ sub @ post" by blast
    qed
    with False Cons.IH show ?thesis by (auto simp: Let_def)
  qed
qed

lemma Contains_iff: "strings_Contains s sub \<longleftrightarrow> (\<exists>pre post. s = pre @ sub @ post)"
  by (simp add: strings_Contains_def Index_nonneg_iff)

lemma Index_char_notin: "c \<notin> set s \<Longrightarrow> strings_Index s [c] = - 1"
  by (induction s) (auto simp: strings_HasPrefix_def)

lemma Index_char_first: "c \<notin> set a \<Longrightarrow> strings_Index (a @ c # r) [c] = int (length a)"
  by (induction a) (auto simp: strings_HasPrefix_def Let_def)

lemma Split_char_none: "c \<notin> set s \<Longrightarrow> strings_Split s [c] = [s]"
  by (simp add: strings_Split.simps [of s] Index_char_notin)

lemma Split_char_cut: "c \<notin> set a \<Longrightarrow> strings_Split (a @ c # r) [c] = a # strings_Split r [c]"
  by (simp add: strings_Split.simps [of "a @ c # r"] Index_char_first)

lemma Split_char_append:
  "strings_Split (p @ c # r) [c] = strings_Split p [c] @ strings_Split r [c]"
proof (induction "length p" arbitrary: p rule: less_induct)
  case less
  show ?case
  proof (cases "c \<in> set p")
    case False
    then show ?thesis by (simp add: Split_char_none Split_char_cut)
  next
    case True
    then obtain a p' where p: "p = a @ c # p'" and a: "c \<notin> set a"
      by (auto dest: split_list_first)
    have "strings_Split (p' @ c # r) [c] = strings_Split p' [c] @ strings_Split r [c]"
      using less [of p'] p by simp
    with a show ?thesis
      using Split_char_cut [of c a "p' @ c # r"] Split_char_cut [of c a p'] p by simp
  qed
qed



lemma HasSuffix_iff: "strings_HasSuffix s suf \<longleftrightarrow> (\<exists>pre. s = pre @ suf)"
proof
  assume "strings_HasSuffix s suf"
  then have "s = take (length s - length suf) s @ suf"
    by (metis append_take_drop_id strings_HasSuffix_def)
  then show "\<exists>pre. s = pre @ suf" ..
next
  assume "\<exists>pre. s = pre @ suf"
  then show "strings_HasSuffix s suf" by (auto simp: strings_HasSuffix_def)
qed

lemma Split_char_empty: "strings_Split [] [c] = [[]]"
  by (simp add: Split_char_none)

lemma Split_char_irregular:
  assumes "strings_HasPrefix s [c] \<or> strings_HasSuffix s [c] \<or> strings_Contains s [c, c]"
  shows "[] \<in> set (strings_Split s [c])"
  using assms
proof (elim disjE)
  assume "strings_HasPrefix s [c]"
  then obtain r where "s = [] @ c # r" by (auto simp: HasPrefix_iff)
  then show ?thesis by (simp only: Split_char_append Split_char_empty) simp
next
  assume "strings_HasSuffix s [c]"
  then obtain p where "s = p @ c # []" by (auto simp: HasSuffix_iff)
  then show ?thesis by (simp only: Split_char_append Split_char_empty) simp
next
  assume "strings_Contains s [c, c]"
  then obtain p r where "s = p @ c # ([] @ c # r)" by (auto simp: Contains_iff)
  then show ?thesis by (simp only: Split_char_append Split_char_empty) simp
qed

lemma Contains_trans:
  "strings_Contains a b \<Longrightarrow> strings_Contains b c \<Longrightarrow> strings_Contains a c"
proof -
  assume "strings_Contains a b" and "strings_Contains b c"
  then obtain p q p' q' where "a = p @ b @ q" and "b = p' @ c @ q'"
    unfolding Contains_iff by blast
  then have "a = (p @ p') @ c @ (q' @ q)" by simp
  then show ?thesis unfolding Contains_iff by blast
qed

lemma Join_Contains: "m \<in> set xs \<Longrightarrow> strings_Contains (strings_Join xs sep) m"
proof (induction xs sep rule: strings_Join.induct)
  case (1 sep)
  then show ?case by simp
next
  case (2 a sep)
  then have "a = [] @ m @ []" by simp
  then show ?case unfolding Contains_iff by (metis strings_Join.simps(2))
next
  case (3 a b bs sep)
  show ?case
  proof (cases "m = a")
    case True
    have "strings_Join (a # b # bs) sep = [] @ m @ (sep @ strings_Join (b # bs) sep)"
      using True by simp
    then show ?thesis unfolding Contains_iff by blast
  next
    case False
    with 3 have "strings_Contains (strings_Join (b # bs) sep) m" by simp
    then obtain p q where "strings_Join (b # bs) sep = p @ m @ q" unfolding Contains_iff by blast
    then have "strings_Join (a # b # bs) sep = (a @ sep @ p) @ m @ q" by simp
    then show ?thesis unfolding Contains_iff by blast
  qed
qed

section \<open>Facts about the dispatcher loop\<close>

lemma Valid_iff: "Valid u \<longleftrightarrow> Names u \<noteq> [] \<and> Token u \<noteq> []"
  by (simp add: Valid_def)

lemma loop_body_trace:
  "snd (loop_body w tok k v st) =
     snd st @ [HttpGet (''https://www.duckdns.org/update?domains='' @ v @ ''&token='' @ tok @ ''&ip='')]"
  by (cases st) (simp add: loop_body_def Let_def split: http_result.splits)

lemma loop_body_errs:
  "fst (loop_body w tok k v st) = fst st @ fst (loop_body w tok k v ([], []))"
  by (cases st) (simp add: loop_body_def Let_def split: http_result.splits)

lemma range_Names_trace:
  "snd (range_Names w tok k vs st) =
     snd st @ map (\<lambda>v. HttpGet (''https://www.duckdns.org/update?domains='' @ v @ ''&token='' @ tok @ ''&ip='')) vs"
proof (induction vs arbitrary: k st)
  case Nil
  then show ?case by simp
next
  case (Cons v vs)
  then show ?case by (simp add: loop_body_trace)
qed

lemma range_Names_errs:
  "fst (range_Names w tok k vs st) =
     fst st @ concat (map (\<lambda>(i, v). fst (loop_body w tok i v ([], []))) (enumerate k vs))"
proof (induction vs arbitrary: k st)
  case Nil
  then show ?case by simp
next
  case (Cons v vs)
  show ?case
    using loop_body_errs [of w tok k v st] by (simp add: Cons.IH)
qed

lemma makeUpdate_Valid:
  assumes "Valid u"
  shows "makeUpdate w u =
     Return (if recorded w u = [] then None else Some (strings_Join (recorded w u) [CHR 0x0A]),
             map (\<lambda>v. HttpGet (''https://www.duckdns.org/update?domains='' @ v @ ''&token='' @ Token u @ ''&ip='')) (Names u))"
proof -
  obtain errs tr where r: "range_Names w (Token u) 0 (Names u) ([], []) = (errs, tr)"
    by (cases "range_Names w (Token u) 0 (Names u) ([], [])")
  have "errs = recorded w u"
    using range_Names_errs [of w "Token u" 0 "Names u" "([], [])"] r by (simp add: recorded_def)
  moreover have "tr = map (\<lambda>v. HttpGet (''https://www.duckdns.org/update?domains='' @ v @ ''&token='' @ Token u @ ''&ip='')) (Names u)"
    using range_Names_trace [of w "Token u" 0 "Names u" "([], [])"] r by simp
  ultimately show ?thesis using assms r by (simp add: makeUpdate_def)
qed

lemma makeUpdate_invalid: "\<not> Valid u \<Longrightarrow> makeUpdate w u = Exit 1"
  by (simp add: makeUpdate_def)

lemma makeUpdate_network:
  "network w = network w' \<Longrightarrow> makeUpdate w u = makeUpdate w' u"
proof -
  assume n: "network w = network w'"
  have b: "loop_body w tok k v st = loop_body w' tok k v st" for tok k v st
    by (simp add: loop_body_def n)
  have "range_Names w tok k vs st = range_Names w' tok k vs st" for tok k vs st
    by (induction vs arbitrary: k st) (simp_all add: b)
  then show ?thesis by (simp add: makeUpdate_def)
qed

lemma sent_Valid:
  "Valid u \<Longrightarrow> sent w u =
     map (\<lambda>v. HttpGet (''https://www.duckdns.org/update?domains='' @ v @ ''&token='' @ Token u @ ''&ip='')) (Names u)"
  by (simp add: sent_def makeUpdate_Valid)

lemma count_empty_domain:
  "count_list (map (\<lambda>v. HttpGet (''https://www.duckdns.org/update?domains='' @ v @ ''&token='' @ tok @ ''&ip='')) vs)
     (HttpGet (''https://www.duckdns.org/update?domains=&token='' @ tok @ ''&ip='')) = count_list vs []"
  by (induction vs) (simp_all add: append_eq_Cons_conv)

lemma recorded_split:
  assumes "k < length (Names u)"
  shows "recorded w u =
           fst (range_Names w (Token u) 0 (take k (Names u)) ([], []))
         @ fst (loop_body w (Token u) k (Names u ! k) ([], []))
         @ fst (range_Names w (Token u) (Suc k) (drop (Suc k) (Names u)) ([], []))"
proof -
  have n: "Names u = take k (Names u) @ Names u ! k # drop (Suc k) (Names u)"
    using assms by (rule id_take_nth_drop)
  have l: "length (take k (Names u)) = k" using assms by simp
  have "enumerate 0 (Names u) =
          enumerate 0 (take k (Names u)) @ (k, Names u ! k) # enumerate (Suc k) (drop (Suc k) (Names u))"
    by (subst n) (simp only: enumerate_append_eq l enumerate_simps, simp)
  then show ?thesis
    by (simp add: recorded_def range_Names_errs)
qed

lemma loop_body_Body:
  assumes "network w k (''https://www.duckdns.org/update?domains='' @ v @ ''&token='' @ tok @ ''&ip='') = Body b"
  shows "fst (loop_body w tok k v ([], [])) =
           (if strings_Contains b ''KO'' then [''Error updating '' @ v @ '' with DuckDNS''] else [])"
  using assms by (simp add: loop_body_def Let_def)





section \<open>Facts about the configuration merge\<close>

lemma getConfigEnv_keeps:
  "(Token u \<noteq> [] \<longrightarrow> Token (fst (getConfigEnv w u)) = Token u)
 \<and> (Names u \<noteq> [] \<longrightarrow> Names (fst (getConfigEnv w u)) = Names u)"
  by (simp add: getConfigEnv_def Let_def)

lemma getConfigFile_keeps:
  "(Token u \<noteq> [] \<longrightarrow> Token (fst (getConfigFile w u f)) = Token u)
 \<and> (Names u \<noteq> [] \<longrightarrow> Names (fst (getConfigFile w u f)) = Names u)"
  by (simp add: getConfigFile_def Let_def split: sum.splits)

lemma getConfigEnv_trace: "snd (getConfigEnv w u) = [Getenv ''DUCK_TOKEN'', Getenv ''DUCK_NAMES'']"
  by (simp add: getConfigEnv_def Let_def)

lemma getConfigFile_trace: "snd (getConfigFile w u path) = [ReadFile path]"
  by (simp add: getConfigFile_def Let_def split: sum.splits)

lemma resolveConfig_steps:
  "resolveConfig w c =
     (if Valid (getConfigCLI c) then (getConfigCLI c, [])
      else if Valid (fst (getConfigEnv w (getConfigCLI c))) then getConfigEnv w (getConfigCLI c)
      else (fst (getConfigFile w (fst (getConfigEnv w (getConfigCLI c))) (cli_File c)),
            [Getenv ''DUCK_TOKEN'', Getenv ''DUCK_NAMES'', ReadFile (cli_File c)]))"
  by (simp add: resolveConfig_def Let_def split_beta prod_eq_iff getConfigEnv_trace
      getConfigFile_trace)

lemma resolveConfig_trace:
  "snd (resolveConfig w c) = []
 \<or> snd (resolveConfig w c) = [Getenv ''DUCK_TOKEN'', Getenv ''DUCK_NAMES'']
 \<or> snd (resolveConfig w c) = [Getenv ''DUCK_TOKEN'', Getenv ''DUCK_NAMES'', ReadFile (cli_File c)]"
  by (simp add: resolveConfig_steps getConfigEnv_trace)

section \<open>The claims about the configuration merge\<close>

text \<open>
  C1. When the command line gives a non-empty token and a non-empty list of names, the
  resolved request is exactly that token and those names, and the trace of the
  resolution is empty: neither the environment nor the file is read. The whole run
  then performs nothing but the HTTP requests built from the command line's values,
  and replacing the environment, the files and the YAML decoder by any others changes
  nothing of the run.
\<close>

theorem cli_config_wins:
  assumes "cli_Token c \<noteq> []" and "cli_Names c \<noteq> []"
  shows "resolveConfig w c = (\<lparr>Token = cli_Token c, Names = cli_Names c\<rparr>, [])
       \<and> snd (main w c) =
           map (\<lambda>v. HttpGet (''https://www.duckdns.org/update?domains='' @ v @ ''&token=''
                               @ cli_Token c @ ''&ip=''))
             (cli_Names c)
       \<and> main (w\<lparr>environ := e, files := f, yaml_Unmarshal := y\<rparr>) c = main w c"
proof -
  let ?u = "\<lparr>Token = cli_Token c, Names = cli_Names c\<rparr>"
  have v: "Valid ?u" using assms by (simp add: Valid_iff)
  have r: "resolveConfig w' c = (?u, [])" for w'
    using v by (simp add: resolveConfig_steps getConfigCLI_def)
  have t: "snd (main w c) =
           map (\<lambda>v. HttpGet (''https://www.duckdns.org/update?domains='' @ v @ ''&token=''
                               @ cli_Token c @ ''&ip=''))
             (cli_Names c)"
    by (simp add: main_def r makeUpdate_Valid [OF v])
  have "makeUpdate (w\<lparr>environ := e, files := f, yaml_Unmarshal := y\<rparr>) ?u = makeUpdate w ?u"
    by (rule makeUpdate_network) simp
  then have "main (w\<lparr>environ := e, files := f, yaml_Unmarshal := y\<rparr>) c = main w c"
    by (simp add: main_def r)
  with r t show ?thesis by simp
qed

theorem cli_config_wins_witness:
  "cli_Token cli_full \<noteq> [] \<and> cli_Names cli_full \<noteq> []
 \<and> resolveConfig full_world cli_full = (\<lparr>Token = ''t'', Names = [''a'', ''b'']\<rparr>, [])
 \<and> snd (main full_world cli_full) =
       [HttpGet ''https://www.duckdns.org/update?domains=a&token=t&ip='',
        HttpGet ''https://www.duckdns.org/update?domains=b&token=t&ip='']"
  using cli_config_wins [of cli_full full_world]
  by (simp add: cli_full_def)

text \<open>
  C2. Neither merge step overwrites a field that is already set: a non-empty token and
  a non-empty list of names go through \<open>getConfigEnv\<close> and through \<open>getConfigFile\<close>
  unchanged. Merging stops at the first valid request: a valid command line is the
  result with no read at all, and when the environment makes the request valid the
  result is the environment step's, with no file read. Only otherwise is the file read.
\<close>

theorem merge_never_overwrites:
  "(Token u \<noteq> [] \<longrightarrow> Token (fst (getConfigEnv w u)) = Token u)
 \<and> (Names u \<noteq> [] \<longrightarrow> Names (fst (getConfigEnv w u)) = Names u)
 \<and> (Token u \<noteq> [] \<longrightarrow> Token (fst (getConfigFile w u path)) = Token u)
 \<and> (Names u \<noteq> [] \<longrightarrow> Names (fst (getConfigFile w u path)) = Names u)
 \<and> (Valid (getConfigCLI c) \<longrightarrow> resolveConfig w c = (getConfigCLI c, []))
 \<and> (\<not> Valid (getConfigCLI c) \<and> Valid (fst (getConfigEnv w (getConfigCLI c))) \<longrightarrow>
      resolveConfig w c = getConfigEnv w (getConfigCLI c)
    \<and> snd (resolveConfig w c) = [Getenv ''DUCK_TOKEN'', Getenv ''DUCK_NAMES''])
 \<and> (\<not> Valid (getConfigCLI c) \<and> \<not> Valid (fst (getConfigEnv w (getConfigCLI c))) \<longrightarrow>
      resolveConfig w c =
        (fst (getConfigFile w (fst (getConfigEnv w (getConfigCLI c))) (cli_File c)),
         [Getenv ''DUCK_TOKEN'', Getenv ''DUCK_NAMES'', ReadFile (cli_File c)]))"
proof -
  have stop1: "Valid (getConfigCLI c) \<longrightarrow> resolveConfig w c = (getConfigCLI c, [])"
    by (simp add: resolveConfig_steps)
  have stop2: "\<not> Valid (getConfigCLI c) \<and> Valid (fst (getConfigEnv w (getConfigCLI c))) \<longrightarrow>
      resolveConfig w c = getConfigEnv w (getConfigCLI c)
    \<and> snd (resolveConfig w c) = [Getenv ''DUCK_TOKEN'', Getenv ''DUCK_NAMES'']"
    by (simp add: resolveConfig_steps getConfigEnv_trace)
  have go3: "\<not> Valid (getConfigCLI c) \<and> \<not> Valid (fst (getConfigEnv w (getConfigCLI c))) \<longrightarrow>
      resolveConfig w c =
        (fst (getConfigFile w (fst (getConfigEnv w (getConfigCLI c))) (cli_File c)),
         [Getenv ''DUCK_TOKEN'', Getenv ''DUCK_NAMES'', ReadFile (cli_File c)])"
    by (simp add: resolveConfig_steps)
  from getConfigEnv_keeps [of u w] getConfigFile_keeps [of u w path] stop1 stop2 go3
  show ?thesis by blast
qed

theorem merge_never_overwrites_witness:
  "Token \<lparr>Token = ''t'', Names = [''a'']\<rparr> \<noteq> []
 \<and> Names \<lparr>Token = ''t'', Names = [''a'']\<rparr> \<noteq> []
 \<and> fst (getConfigEnv full_world \<lparr>Token = ''t'', Names = [''a'']\<rparr>) = \<lparr>Token = ''t'', Names = [''a'']\<rparr>
 \<and> fst (getConfigFile full_world \<lparr>Token = ''t'', Names = [''a'']\<rparr> ''duckdns.yaml'')
       = \<lparr>Token = ''t'', Names = [''a'']\<rparr>
 \<and> Valid (getConfigCLI cli_full)
 \<and> resolveConfig full_world cli_full = (\<lparr>Token = ''t'', Names = [''a'', ''b'']\<rparr>, [])
 \<and> \<not> Valid (getConfigCLI cli_empty)
 \<and> Valid (fst (getConfigEnv full_world (getConfigCLI cli_empty)))
 \<and> resolveConfig full_world cli_empty =
       (\<lparr>Token = ''envtoken'', Names = [''x'', ''y'']\<rparr>, [Getenv ''DUCK_TOKEN'', Getenv ''DUCK_NAMES''])
 \<and> \<not> Valid (fst (getConfigEnv bare_world (getConfigCLI cli_empty)))
 \<and> resolveConfig bare_world cli_empty =
       (\<lparr>Token = [], Names = []\<rparr>,
        [Getenv ''DUCK_TOKEN'', Getenv ''DUCK_NAMES'', ReadFile ''duckdns.yaml''])"
proof -
  have e1: "getConfigEnv full_world \<lparr>Token = ''t'', Names = [''a'']\<rparr>
      = (\<lparr>Token = ''t'', Names = [''a'']\<rparr>, [Getenv ''DUCK_TOKEN'', Getenv ''DUCK_NAMES''])"
    by code_simp
  have f1: "getConfigFile full_world \<lparr>Token = ''t'', Names = [''a'']\<rparr> ''duckdns.yaml''
      = (\<lparr>Token = ''t'', Names = [''a'']\<rparr>, [ReadFile ''duckdns.yaml''])"
    by code_simp
  have c1: "getConfigCLI cli_full = \<lparr>Token = ''t'', Names = [''a'', ''b'']\<rparr>"
    and c2: "getConfigCLI cli_empty = \<lparr>Token = [], Names = []\<rparr>"
    and c3: "cli_File cli_empty = ''duckdns.yaml''"
    by (simp_all add: getConfigCLI_def cli_full_def cli_empty_def)
  have e2: "getConfigEnv full_world \<lparr>Token = [], Names = []\<rparr>
      = (\<lparr>Token = ''envtoken'', Names = [''x'', ''y'']\<rparr>, [Getenv ''DUCK_TOKEN'', Getenv ''DUCK_NAMES''])"
    by code_simp
  have e3: "getConfigEnv bare_world \<lparr>Token = [], Names = []\<rparr>
      = (\<lparr>Token = [], Names = []\<rparr>, [Getenv ''DUCK_TOKEN'', Getenv ''DUCK_NAMES''])"
    by code_simp
  have f3: "getConfigFile bare_world \<lparr>Token = [], Names = []\<rparr> ''duckdns.yaml''
      = (\<lparr>Token = [], Names = []\<rparr>, [ReadFile ''duckdns.yaml''])"
    by code_simp
  from merge_never_overwrites [of "\<lparr>Token = ''t'', Names = [''a'']\<rparr>" full_world "''duckdns.yaml''" cli_full]
    merge_never_overwrites [of "\<lparr>Token = ''t'', Names = [''a'']\<rparr>" full_world "''duckdns.yaml''" cli_empty]
    merge_never_overwrites [of "\<lparr>Token = ''t'', Names = [''a'']\<rparr>" bare_world "''duckdns.yaml''" cli_empty]
  show ?thesis
    by (simp add: e1 f1 c1 c2 c3 e2 e3 f3 Valid_def)
qed

section \<open>The claims about the dispatcher\<close>

text \<open>
  C3. For a valid request, the dispatcher returns, and for every name \<open>n\<close> of the list
  it has called \<open>http.Get\<close> with the URL that is the plain concatenation
  \<open>"https://www.duckdns.org/update?domains=" ++ n ++ "&token=" ++ token ++ "&ip="\<close>;
  it has sent no request of any other form.
\<close>

theorem update_url:
  assumes "Valid u" and "n \<in> set (Names u)"
  shows "HttpGet (''https://www.duckdns.org/update?domains='' @ n @ ''&token='' @ Token u @ ''&ip='')
           \<in> set (sent w u)
       \<and> (\<forall>e \<in> set (sent w u). \<exists>m \<in> set (Names u).
             e = HttpGet (''https://www.duckdns.org/update?domains='' @ m @ ''&token=''
                            @ Token u @ ''&ip=''))
       \<and> (\<exists>err. makeUpdate w u = Return (err, sent w u))"
proof -
  have "\<exists>err. makeUpdate w u = Return (err, sent w u)"
    using assms(1) by (simp add: sent_Valid) (simp add: makeUpdate_Valid)
  then show ?thesis using assms by (auto simp: sent_Valid)
qed

theorem update_url_witness:
  "Valid \<lparr>Token = ''t'', Names = [''a'', ''b'']\<rparr>
 \<and> ''b'' \<in> set (Names \<lparr>Token = ''t'', Names = [''a'', ''b'']\<rparr>)
 \<and> HttpGet ''https://www.duckdns.org/update?domains=b&token=t&ip=''
      \<in> set (sent bare_world \<lparr>Token = ''t'', Names = [''a'', ''b'']\<rparr>)"
  using update_url [of "\<lparr>Token = ''t'', Names = [''a'', ''b'']\<rparr>" "''b''" bare_world]
  by (simp add: Valid_def)

text \<open>
  C4. Take a valid request and the name \<open>x\<close> at position \<open>k\<close> of its list, and let the
  \<open>k\<close>-th request be answered with a body \<open>b\<close>; \<open>before\<close> and \<open>after\<close> are the errors
  the loop records for the names in front of \<open>x\<close> and behind it. If \<open>b\<close> is \<open>"OK"\<close> nothing
  is recorded for \<open>x\<close>: the errors of the run are \<open>before\<close> and \<open>after\<close>, and the dispatcher
  returns their aggregate. If \<open>b\<close> contains \<open>"KO"\<close>, the errors of the run are \<open>before\<close>,
  then \<open>"Error updating x with DuckDNS"\<close>, then \<open>after\<close>; the dispatcher returns their
  join as its error, and both the message and the returned error contain \<open>x\<close>. The test
  is substring containment over the whole body: it holds exactly when the body is some
  prefix, then \<open>"KO"\<close>, then some suffix.
\<close>

theorem response_check:
  assumes "Valid u" and "k < length (Names u)" and "x = Names u ! k"
    and "network w k (''https://www.duckdns.org/update?domains='' @ x @ ''&token='' @ Token u @ ''&ip='')
           = Body b"
    and "before = fst (range_Names w (Token u) 0 (take k (Names u)) ([], []))"
    and "after = fst (range_Names w (Token u) (Suc k) (drop (Suc k) (Names u)) ([], []))"
  shows "(b = ''OK'' \<longrightarrow>
            fst (range_Names w (Token u) 0 (Names u) ([], [])) = before @ after
          \<and> makeUpdate w u =
              Return (if before @ after = [] then None
                      else Some (strings_Join (before @ after) [CHR 0x0A]),
                      map (\<lambda>v. HttpGet (''https://www.duckdns.org/update?domains='' @ v @ ''&token=''
                                          @ Token u @ ''&ip=''))
                        (Names u)))
       \<and> (strings_Contains b ''KO'' \<longrightarrow>
            fst (range_Names w (Token u) 0 (Names u) ([], []))
              = before @ [''Error updating '' @ x @ '' with DuckDNS''] @ after
          \<and> makeUpdate w u =
              Return (Some (strings_Join (before @ [''Error updating '' @ x @ '' with DuckDNS''] @ after)
                              [CHR 0x0A]),
                      map (\<lambda>v. HttpGet (''https://www.duckdns.org/update?domains='' @ v @ ''&token=''
                                          @ Token u @ ''&ip=''))
                        (Names u))
          \<and> strings_Contains (''Error updating '' @ x @ '' with DuckDNS'') x
          \<and> strings_Contains
               (strings_Join (before @ [''Error updating '' @ x @ '' with DuckDNS''] @ after) [CHR 0x0A]) x)
       \<and> (\<not> strings_Contains b ''KO'' \<longrightarrow>
            fst (range_Names w (Token u) 0 (Names u) ([], [])) = before @ after)
       \<and> (strings_Contains b ''KO'' \<longleftrightarrow> (\<exists>pre post. b = pre @ ''KO'' @ post))"
proof -
  let ?msg = "''Error updating '' @ x @ '' with DuckDNS''"
  let ?urls = "map (\<lambda>v. HttpGet (''https://www.duckdns.org/update?domains='' @ v @ ''&token=''
                                          @ Token u @ ''&ip='')) (Names u)"
  have ok: "\<not> strings_Contains ''OK'' ''KO''"
    by (simp add: strings_Contains_def strings_HasPrefix_def)
  have errs: "fst (range_Names w (Token u) 0 (Names u) ([], [])) = recorded w u"
    by (simp add: range_Names_errs recorded_def)
  have r: "recorded w u = before @ (if strings_Contains b ''KO'' then [?msg] else []) @ after"
    using recorded_split [OF assms(2), of w] loop_body_Body [of w k x "Token u" b] assms(3-6)
    by simp
  have m: "makeUpdate w u =
      Return (if recorded w u = [] then None else Some (strings_Join (recorded w u) [CHR 0x0A]), ?urls)"
    using assms(1) by (rule makeUpdate_Valid)
  have mx: "strings_Contains ?msg x" unfolding Contains_iff by blast
  have "strings_Contains (strings_Join (before @ [?msg] @ after) [CHR 0x0A]) ?msg"
    by (rule Join_Contains) simp
  then have ax: "strings_Contains (strings_Join (before @ [?msg] @ after) [CHR 0x0A]) x"
    using mx by (rule Contains_trans)
  have 1: "b = ''OK'' \<longrightarrow>
            fst (range_Names w (Token u) 0 (Names u) ([], [])) = before @ after
          \<and> makeUpdate w u =
              Return (if before @ after = [] then None
                      else Some (strings_Join (before @ after) [CHR 0x0A]), ?urls)"
  proof (intro impI)
    assume "b = ''OK''"
    with ok have "\<not> strings_Contains b ''KO''" by simp
    with r have "recorded w u = before @ after" by simp
    then show "fst (range_Names w (Token u) 0 (Names u) ([], [])) = before @ after
          \<and> makeUpdate w u =
              Return (if before @ after = [] then None
                      else Some (strings_Join (before @ after) [CHR 0x0A]), ?urls)"
      by (simp add: errs m)
  qed
  have 2: "strings_Contains b ''KO'' \<longrightarrow>
            fst (range_Names w (Token u) 0 (Names u) ([], [])) = before @ [?msg] @ after
          \<and> makeUpdate w u =
              Return (Some (strings_Join (before @ [?msg] @ after) [CHR 0x0A]), ?urls)"
    by (simp add: errs m r)
  have 3: "\<not> strings_Contains b ''KO'' \<longrightarrow>
            fst (range_Names w (Token u) 0 (Names u) ([], [])) = before @ after"
    by (simp add: errs r)
  have 4: "strings_Contains b ''KO'' \<longleftrightarrow> (\<exists>pre post. b = pre @ ''KO'' @ post)"
    by (rule Contains_iff)
  from 1 2 3 4 mx ax show ?thesis by blast
qed


theorem response_check_witness:
  "Valid plain_request
 \<and> Names plain_request ! 1 = ''c''
 \<and> network two_fail_world 1 ''https://www.duckdns.org/update?domains=c&token=t&ip='' = Body ''KO''
 \<and> strings_Contains ''KO'' ''KO''
 \<and> fst (range_Names two_fail_world ''t'' 0 [''a'', ''c'', ''d''] ([], []))
      = [''Error updating a with DuckDNS'', ''Error updating c with DuckDNS'']
 \<and> makeUpdate two_fail_world plain_request =
     Return (Some (''Error updating a with DuckDNS'' @ [CHR 0x0A] @ ''Error updating c with DuckDNS''),
             [HttpGet ''https://www.duckdns.org/update?domains=a&token=t&ip='',
              HttpGet ''https://www.duckdns.org/update?domains=c&token=t&ip='',
              HttpGet ''https://www.duckdns.org/update?domains=d&token=t&ip=''])
 \<and> strings_Contains
      (''Error updating a with DuckDNS'' @ [CHR 0x0A] @ ''Error updating c with DuckDNS'') ''c''
 \<and> Names plain_request ! 2 = ''d''
 \<and> network two_fail_world 2 ''https://www.duckdns.org/update?domains=d&token=t&ip='' = Body ''OK''"
proof -
  have v: "Valid plain_request" by code_simp
  have n: "Names plain_request = [''a'', ''c'', ''d'']" and t: "Token plain_request = ''t''"
    by (simp_all add: plain_request_def)
  have k1: "(1::nat) < length (Names plain_request)" and k2: "(2::nat) < length (Names plain_request)"
    by (simp_all add: n)
  have x1: "''c'' = Names plain_request ! 1" and x2: "''d'' = Names plain_request ! 2"
    by (simp_all add: n)
  have n1: "network two_fail_world 1
      (''https://www.duckdns.org/update?domains='' @ ''c'' @ ''&token='' @ Token plain_request @ ''&ip='')
        = Body ''KO''"
    unfolding t by code_simp
  have n2: "network two_fail_world 2
      (''https://www.duckdns.org/update?domains='' @ ''d'' @ ''&token='' @ Token plain_request @ ''&ip='')
        = Body ''OK''"
    unfolding t by code_simp
  have b1: "[''Error updating a with DuckDNS''] =
      fst (range_Names two_fail_world (Token plain_request) 0 (take 1 (Names plain_request)) ([], []))"
    unfolding t n by code_simp
  have a1: "[] =
      fst (range_Names two_fail_world (Token plain_request) (Suc 1) (drop (Suc 1) (Names plain_request)) ([], []))"
    unfolding t n by code_simp
  have b2: "[''Error updating a with DuckDNS'', ''Error updating c with DuckDNS''] =
      fst (range_Names two_fail_world (Token plain_request) 0 (take 2 (Names plain_request)) ([], []))"
    unfolding t n by code_simp
  have a2: "[] =
      fst (range_Names two_fail_world (Token plain_request) (Suc 2) (drop (Suc 2) (Names plain_request)) ([], []))"
    unfolding t n by code_simp
  have k: "strings_Contains ''KO'' ''KO''" by code_simp
  note ko = response_check [OF v k1 x1 n1 b1 a1, THEN conjunct2, THEN conjunct1, rule_format, OF k]
  note ok = response_check [OF v k2 x2 n2 b2 a2, THEN conjunct1, rule_format, OF refl]
  have e: "fst (range_Names two_fail_world ''t'' 0 [''a'', ''c'', ''d''] ([], []))
      = [''Error updating a with DuckDNS'', ''Error updating c with DuckDNS'']"
    using ok unfolding t n by simp
  have m: "makeUpdate two_fail_world plain_request =
     Return (Some (''Error updating a with DuckDNS'' @ [CHR 0x0A] @ ''Error updating c with DuckDNS''),
             [HttpGet ''https://www.duckdns.org/update?domains=a&token=t&ip='',
              HttpGet ''https://www.duckdns.org/update?domains=c&token=t&ip='',
              HttpGet ''https://www.duckdns.org/update?domains=d&token=t&ip=''])"
    using ko unfolding t n by simp
  have c: "strings_Contains
      (''Error updating a with DuckDNS'' @ [CHR 0x0A] @ ''Error updating c with DuckDNS'') ''c''"
    using ko by simp
  have x1': "Names plain_request ! 1 = ''c''" and x2': "Names plain_request ! 2 = ''d''"
    by (simp_all add: n)
  have n1': "network two_fail_world 1 ''https://www.duckdns.org/update?domains=c&token=t&ip=''
      = Body ''KO''"
    by code_simp
  have n2': "network two_fail_world 2 ''https://www.duckdns.org/update?domains=d&token=t&ip=''
      = Body ''OK''"
    by code_simp
  show ?thesis by (intro conjI; fact)
qed






text \<open>
  C6. For a valid request, whatever the network answers, the requests sent are the
  update URLs of the entries of the names list, one per entry, in the order of the
  list, a repeated name being requested again: no failure of one request keeps the
  later names from being attempted, and the dispatcher returns after the last one.
\<close>

theorem one_attempt_per_name:
  assumes "Valid u"
  shows "sent w u =
           map (\<lambda>v. HttpGet (''https://www.duckdns.org/update?domains='' @ v @ ''&token=''
                               @ Token u @ ''&ip=''))
             (Names u)
       \<and> length (sent w u) = length (Names u)
       \<and> (\<forall>k < length (Names u). sent w u ! k =
             HttpGet (''https://www.duckdns.org/update?domains='' @ Names u ! k @ ''&token=''
                        @ Token u @ ''&ip=''))
       \<and> (\<exists>err. makeUpdate w u = Return (err, sent w u))"
  using assms by (simp add: sent_Valid) (simp add: makeUpdate_Valid)

theorem one_attempt_per_name_witness:
  "Valid \<lparr>Token = ''t'', Names = [''a'', ''a'', ''b'', ''c'']\<rparr>
 \<and> makeUpdate failing_world \<lparr>Token = ''t'', Names = [''a'', ''a'', ''b'', ''c'']\<rparr> =
     Return (Some (''dial tcp: no route to host'' @ [CHR 0x0A] @ ''unexpected EOF'' @ [CHR 0x0A]
                   @ ''Error updating b with DuckDNS''),
       [HttpGet ''https://www.duckdns.org/update?domains=a&token=t&ip='',
        HttpGet ''https://www.duckdns.org/update?domains=a&token=t&ip='',
        HttpGet ''https://www.duckdns.org/update?domains=b&token=t&ip='',
        HttpGet ''https://www.duckdns.org/update?domains=c&token=t&ip=''])
 \<and> sent failing_world \<lparr>Token = ''t'', Names = [''a'', ''a'', ''b'', ''c'']\<rparr> =
       [HttpGet ''https://www.duckdns.org/update?domains=a&token=t&ip='',
        HttpGet ''https://www.duckdns.org/update?domains=a&token=t&ip='',
        HttpGet ''https://www.duckdns.org/update?domains=b&token=t&ip='',
        HttpGet ''https://www.duckdns.org/update?domains=c&token=t&ip='']"
proof -
  have v: "Valid \<lparr>Token = ''t'', Names = [''a'', ''a'', ''b'', ''c'']\<rparr>" by code_simp
  have m: "makeUpdate failing_world \<lparr>Token = ''t'', Names = [''a'', ''a'', ''b'', ''c'']\<rparr> =
     Return (Some (''dial tcp: no route to host'' @ [CHR 0x0A] @ ''unexpected EOF'' @ [CHR 0x0A]
                   @ ''Error updating b with DuckDNS''),
       [HttpGet ''https://www.duckdns.org/update?domains=a&token=t&ip='',
        HttpGet ''https://www.duckdns.org/update?domains=a&token=t&ip='',
        HttpGet ''https://www.duckdns.org/update?domains=b&token=t&ip='',
        HttpGet ''https://www.duckdns.org/update?domains=c&token=t&ip=''])"
    by code_simp
  from one_attempt_per_name [OF v, of failing_world, THEN conjunct1] v m
  show ?thesis by simp
qed

section \<open>The claims about the file and the environment\<close>

text \<open>
  C7. When \<open>ioutil.ReadFile\<close> fails, or the file is read and \<open>yaml.Unmarshal\<close> fails,
  \<open>getConfigFile\<close> returns with the request exactly as it was given (it has no way to
  end the process: its result is a request, not an \<open>outcome\<close>). In particular, when the
  command line gave neither token nor names and the environment gave neither, the
  resolved request is the empty one.
\<close>

theorem file_error_ignored:
  assumes "files w path = Inl err
         \<or> (\<exists>yamlFile. files w path = Inr yamlFile \<and> yaml_Unmarshal w yamlFile = Inl err)"
  shows "getConfigFile w u path = (u, [ReadFile path])
       \<and> (cli_Token c = [] \<and> cli_Names c = [] \<and> cli_File c = path
            \<and> env_String w ''DUCK_TOKEN'' [] = [] \<and> env_String w ''DUCK_NAMES'' [] = [] \<longrightarrow>
          resolveConfig w c =
            (\<lparr>Token = [], Names = []\<rparr>,
             [Getenv ''DUCK_TOKEN'', Getenv ''DUCK_NAMES'', ReadFile path]))"
proof (intro conjI impI)
  have f: "getConfigFile w x path = (x, [ReadFile path])" for x
    using assms by (auto simp: getConfigFile_def)
  show "getConfigFile w u path = (u, [ReadFile path])" by (rule f)
  assume "cli_Token c = [] \<and> cli_Names c = [] \<and> cli_File c = path
            \<and> env_String w ''DUCK_TOKEN'' [] = [] \<and> env_String w ''DUCK_NAMES'' [] = []"
  then show "resolveConfig w c =
            (\<lparr>Token = [], Names = []\<rparr>,
             [Getenv ''DUCK_TOKEN'', Getenv ''DUCK_NAMES'', ReadFile path])"
    by (simp add: resolveConfig_def getConfigCLI_def Valid_def getConfigEnv_def f)
qed

theorem file_error_ignored_witness:
  "files bare_world ''duckdns.yaml'' = Inl ''open: no such file or directory''
 \<and> getConfigFile bare_world \<lparr>Token = ''t'', Names = []\<rparr> ''duckdns.yaml''
      = (\<lparr>Token = ''t'', Names = []\<rparr>, [ReadFile ''duckdns.yaml''])
 \<and> files broken_yaml_world ''duckdns.yaml'' = Inr ''token: [unclosed''
 \<and> yaml_Unmarshal broken_yaml_world ''token: [unclosed''
      = Inl ''yaml: line 1: did not find expected node content''
 \<and> getConfigFile broken_yaml_world \<lparr>Token = [], Names = [''a'']\<rparr> ''duckdns.yaml''
      = (\<lparr>Token = [], Names = [''a'']\<rparr>, [ReadFile ''duckdns.yaml''])
 \<and> resolveConfig broken_yaml_world cli_empty =
      (\<lparr>Token = [], Names = []\<rparr>,
       [Getenv ''DUCK_TOKEN'', Getenv ''DUCK_NAMES'', ReadFile ''duckdns.yaml''])"
proof -
  have a: "files bare_world ''duckdns.yaml'' = Inl ''open: no such file or directory''"
    by (simp add: bare_world_def)
  have b: "files broken_yaml_world ''duckdns.yaml'' = Inr ''token: [unclosed''"
    "yaml_Unmarshal broken_yaml_world ''token: [unclosed''
      = Inl ''yaml: line 1: did not find expected node content''"
    by (simp_all add: broken_yaml_world_def)
  have c: "cli_Token cli_empty = []" "cli_Names cli_empty = []" "cli_File cli_empty = ''duckdns.yaml''"
    "env_String broken_yaml_world ''DUCK_TOKEN'' [] = []"
    "env_String broken_yaml_world ''DUCK_NAMES'' [] = []"
    by (simp_all add: cli_empty_def broken_yaml_world_def env_String_def)
  from b have b': "files broken_yaml_world ''duckdns.yaml'' = Inl ''yaml: line 1: did not find expected node content''
         \<or> (\<exists>yamlFile. files broken_yaml_world ''duckdns.yaml'' = Inr yamlFile
              \<and> yaml_Unmarshal broken_yaml_world yamlFile = Inl ''yaml: line 1: did not find expected node content'')"
    by blast
  from file_error_ignored [of bare_world "''duckdns.yaml''" "''open: no such file or directory''"
        "\<lparr>Token = ''t'', Names = []\<rparr>" cli_empty]
    file_error_ignored [OF b', of "\<lparr>Token = [], Names = [''a'']\<rparr>" cli_empty]
  show ?thesis using a b c by simp
qed

text \<open>
  C8. For a request whose names list is empty, when \<open>DUCK_NAMES\<close> holds \<open>"a b c"\<close> the
  environment step sets the names to \<open>["a", "b", "c"]\<close>.
\<close>

theorem env_names_split:
  assumes "Names u = []" and "environ w ''DUCK_NAMES'' = Some ''a b c''"
  shows "Names (fst (getConfigEnv w u)) = [''a'', ''b'', ''c'']"
proof -
  have s: "strings_Split ''a b c'' '' '' = [''a'', ''b'', ''c'']" by code_simp
  show ?thesis using assms by (simp add: getConfigEnv_def env_String_def s)
qed


theorem env_names_split_witness:
  "Names \<lparr>Token = ''t'', Names = []\<rparr> = []
 \<and> environ abc_world ''DUCK_NAMES'' = Some ''a b c''
 \<and> getConfigEnv abc_world \<lparr>Token = ''t'', Names = []\<rparr> =
      (\<lparr>Token = ''t'', Names = [''a'', ''b'', ''c'']\<rparr>, [Getenv ''DUCK_TOKEN'', Getenv ''DUCK_NAMES''])"
proof -
  have e: "environ abc_world ''DUCK_NAMES'' = Some ''a b c''" by (simp add: abc_world_def)
  have g: "getConfigEnv abc_world \<lparr>Token = ''t'', Names = []\<rparr> =
      (\<lparr>Token = ''t'', Names = Names (fst (getConfigEnv abc_world \<lparr>Token = ''t'', Names = []\<rparr>))\<rparr>,
       [Getenv ''DUCK_TOKEN'', Getenv ''DUCK_NAMES''])"
    by (simp add: getConfigEnv_def Let_def)
  from env_names_split [of "\<lparr>Token = ''t'', Names = []\<rparr>" abc_world, OF _ e] g e
  show ?thesis by simp
qed

text \<open>
  C9. \<open>Valid\<close> looks at the token and at the length of the names list only: with a
  non-empty token and the single name \<open>""\<close> the request is valid, and the dispatcher
  returns after exactly one GET, whose \<open>domains\<close> parameter is empty.
\<close>

theorem empty_name_is_valid:
  assumes "token \<noteq> []"
  shows "Valid \<lparr>Token = token, Names = [[]]\<rparr>
       \<and> makeUpdate w \<lparr>Token = token, Names = [[]]\<rparr> =
           Return (if recorded w \<lparr>Token = token, Names = [[]]\<rparr> = [] then None
                   else Some (strings_Join (recorded w \<lparr>Token = token, Names = [[]]\<rparr>) [CHR 0x0A]),
                   [HttpGet (''https://www.duckdns.org/update?domains=&token='' @ token @ ''&ip='')])
       \<and> (Valid u \<longleftrightarrow> Names u \<noteq> [] \<and> Token u \<noteq> [])"
proof -
  have v: "Valid \<lparr>Token = token, Names = [[]]\<rparr>" using assms by (simp add: Valid_def)
  from makeUpdate_Valid [OF v, of w] v Valid_iff [of u] show ?thesis by simp
qed

theorem empty_name_is_valid_witness:
  "''t'' \<noteq> []
 \<and> Valid \<lparr>Token = ''t'', Names = [[]]\<rparr>
 \<and> makeUpdate bare_world \<lparr>Token = ''t'', Names = [[]]\<rparr> =
      Return (None, [HttpGet ''https://www.duckdns.org/update?domains=&token=t&ip=''])"
proof -
  have r: "recorded bare_world \<lparr>Token = ''t'', Names = [[]]\<rparr> = []" by code_simp
  from empty_name_is_valid [of "''t''" bare_world] show ?thesis unfolding r by simp
qed

text \<open>
  C10 as it is stated fails in two ways, both by a guard of the code. With
  \<open>DUCK_NAMES\<close> = \<open>"a  b"\<close> and no token from any source, the environment step does put
  the empty name into the list, but the request is not valid and the run exits with
  status 1 before any update is attempted. And when the command line gave names but no
  token, the environment step is run and does not split \<open>DUCK_NAMES\<close> at all: the names
  stay as they were, and no request with an empty \<open>domains\<close> parameter is sent.
\<close>

theorem env_split_counterexample:
  "environ names_only_world ''DUCK_NAMES'' = Some ''a  b''
 \<and> strings_Contains ''a  b'' ''  ''
 \<and> getConfigEnv names_only_world (getConfigCLI cli_empty) =
      (\<lparr>Token = [], Names = [''a'', [], ''b'']\<rparr>, [Getenv ''DUCK_TOKEN'', Getenv ''DUCK_NAMES''])
 \<and> main names_only_world cli_empty =
      (1, [Getenv ''DUCK_TOKEN'', Getenv ''DUCK_NAMES'', ReadFile ''duckdns.yaml''])
 \<and> environ gap_world ''DUCK_NAMES'' = Some ''a  b''
 \<and> getConfigEnv gap_world (getConfigCLI cli_names_only) =
      (\<lparr>Token = ''t'', Names = [''z'']\<rparr>, [Getenv ''DUCK_TOKEN'', Getenv ''DUCK_NAMES''])
 \<and> main gap_world cli_names_only =
      (0, [Getenv ''DUCK_TOKEN'', Getenv ''DUCK_NAMES'',
           HttpGet ''https://www.duckdns.org/update?domains=z&token=t&ip=''])"
  by code_simp


text \<open>
  C10, amended. When \<open>DUCK_NAMES\<close> is not empty and starts with a space, ends with a
  space or holds two spaces in a row, its split at the spaces has an empty string among
  its fields. The environment step makes this split the names of a request that had no
  names, and it stays the names of the resolved request when the command line gave
  none. If the resolved request has a non-empty token, the run sends one GET per field
  after its reads, and as many of them have an empty \<open>domains\<close> parameter as there are
  empty fields.
\<close>

theorem env_split_keeps_empty_fields:
  assumes "environ w ''DUCK_NAMES'' = Some s" and "s \<noteq> []"
    and "strings_HasPrefix s '' '' \<or> strings_HasSuffix s '' '' \<or> strings_Contains s ''  ''"
  shows "[] \<in> set (strings_Split s '' '')
       \<and> (Names u = [] \<longrightarrow> Names (fst (getConfigEnv w u)) = strings_Split s '' '')
       \<and> (cli_Names c = [] \<longrightarrow> Names (fst (resolveConfig w c)) = strings_Split s '' '')
       \<and> (cli_Names c = [] \<and> Token (fst (resolveConfig w c)) \<noteq> [] \<longrightarrow>
            snd (main w c) =
              snd (resolveConfig w c) @
              map (\<lambda>v. HttpGet (''https://www.duckdns.org/update?domains='' @ v @ ''&token=''
                                  @ Token (fst (resolveConfig w c)) @ ''&ip=''))
                (strings_Split s '' '')
          \<and> count_list (snd (main w c))
               (HttpGet (''https://www.duckdns.org/update?domains=&token=''
                           @ Token (fst (resolveConfig w c)) @ ''&ip=''))
              = count_list (strings_Split s '' '') [])"
proof -
  have 1: "[] \<in> set (strings_Split s '' '')"
    using assms(3) by (rule Split_char_irregular)
  then have ne: "strings_Split s '' '' \<noteq> []" by auto
  have 2: "Names (fst (getConfigEnv w x)) = strings_Split s '' ''" if "Names x = []" for x
    using that assms(1,2) by (simp add: getConfigEnv_def env_String_def)
  have 3: "Names (fst (resolveConfig w c)) = strings_Split s '' ''" if n: "cli_Names c = []"
  proof -
    let ?u0 = "getConfigCLI c"
    let ?u1 = "fst (getConfigEnv w ?u0)"
    have i0: "\<not> Valid ?u0" using n by (simp add: Valid_def getConfigCLI_def)
    have n1: "Names ?u1 = strings_Split s '' ''"
      using n by (intro 2) (simp add: getConfigCLI_def)
    show ?thesis
    proof (cases "Valid ?u1")
      case True
      with i0 have "resolveConfig w c = getConfigEnv w ?u0"
        by (simp add: resolveConfig_steps)
      with n1 show ?thesis by simp
    next
      case False
      with i0 have "fst (resolveConfig w c) = fst (getConfigFile w ?u1 (cli_File c))"
        by (simp add: resolveConfig_steps)
      moreover have "Names (fst (getConfigFile w ?u1 (cli_File c))) = Names ?u1"
        using getConfigFile_keeps [of ?u1 w "cli_File c"] n1 ne by simp
      ultimately show ?thesis using n1 by simp
    qed
  qed
  have 4: "snd (main w c) =
              snd (resolveConfig w c) @
              map (\<lambda>v. HttpGet (''https://www.duckdns.org/update?domains='' @ v @ ''&token=''
                                  @ Token (fst (resolveConfig w c)) @ ''&ip=''))
                (strings_Split s '' '')
          \<and> count_list (snd (main w c))
               (HttpGet (''https://www.duckdns.org/update?domains=&token=''
                           @ Token (fst (resolveConfig w c)) @ ''&ip=''))
              = count_list (strings_Split s '' '') []"
    if n: "cli_Names c = []" and t: "Token (fst (resolveConfig w c)) \<noteq> []"
  proof -
    obtain r tr where r: "resolveConfig w c = (r, tr)" by (cases "resolveConfig w c")
    have nr: "Names r = strings_Split s '' ''" using 3 [OF n] r by simp
    have v: "Valid r" using nr ne t r by (simp add: Valid_iff)
    have m: "snd (main w c) =
       tr @ map (\<lambda>v. HttpGet (''https://www.duckdns.org/update?domains='' @ v @ ''&token='' @ Token r @ ''&ip=''))
                (strings_Split s '' '')"
      by (simp add: main_def r makeUpdate_Valid [OF v] nr)
    have "count_list tr (HttpGet (''https://www.duckdns.org/update?domains=&token='' @ Token r @ ''&ip='')) = 0"
      using resolveConfig_trace [of w c] r by auto
    then have "count_list (snd (main w c))
               (HttpGet (''https://www.duckdns.org/update?domains=&token='' @ Token r @ ''&ip=''))
              = count_list (strings_Split s '' '') []"
      unfolding m using count_empty_domain [of "Token r" "strings_Split s '' ''"] by simp
    with m r show ?thesis by simp
  qed
  from 1 2 [of u] 3 4 show ?thesis by blast
qed

theorem env_split_keeps_empty_fields_witness:
  "environ gap_world ''DUCK_NAMES'' = Some ''a  b''
 \<and> strings_Contains ''a  b'' ''  ''
 \<and> strings_Split ''a  b'' '' '' = [''a'', [], ''b'']
 \<and> getConfigEnv gap_world \<lparr>Token = [], Names = []\<rparr> =
      (\<lparr>Token = ''t'', Names = [''a'', [], ''b'']\<rparr>, [Getenv ''DUCK_TOKEN'', Getenv ''DUCK_NAMES''])
 \<and> cli_Names cli_empty = []
 \<and> resolveConfig gap_world cli_empty =
      (\<lparr>Token = ''t'', Names = [''a'', [], ''b'']\<rparr>, [Getenv ''DUCK_TOKEN'', Getenv ''DUCK_NAMES''])
 \<and> main gap_world cli_empty =
      (0, [Getenv ''DUCK_TOKEN'', Getenv ''DUCK_NAMES'',
           HttpGet ''https://www.duckdns.org/update?domains=a&token=t&ip='',
           HttpGet ''https://www.duckdns.org/update?domains=&token=t&ip='',
           HttpGet ''https://www.duckdns.org/update?domains=b&token=t&ip=''])"
proof -
  have e: "environ gap_world ''DUCK_NAMES'' = Some ''a  b''" by (simp add: gap_world_def)
  have k: "strings_Contains ''a  b'' ''  ''" by code_simp
  have s: "strings_Split ''a  b'' '' '' = [''a'', [], ''b'']" by code_simp
  have g: "getConfigEnv gap_world \<lparr>Token = [], Names = []\<rparr> =
      (\<lparr>Token = ''t'', Names = [''a'', [], ''b'']\<rparr>, [Getenv ''DUCK_TOKEN'', Getenv ''DUCK_NAMES''])"
    by code_simp
  have n: "cli_Names cli_empty = []" by (simp add: cli_empty_def)
  have r: "resolveConfig gap_world cli_empty =
      (\<lparr>Token = ''t'', Names = [''a'', [], ''b'']\<rparr>, [Getenv ''DUCK_TOKEN'', Getenv ''DUCK_NAMES''])"
    by code_simp
  have m: "main gap_world cli_empty =
      (0, [Getenv ''DUCK_TOKEN'', Getenv ''DUCK_NAMES'',
           HttpGet ''https://www.duckdns.org/update?domains=a&token=t&ip='',
           HttpGet ''https://www.duckdns.org/update?domains=&token=t&ip='',
           HttpGet ''https://www.duckdns.org/update?domains=b&token=t&ip=''])"
    by code_simp
  from env_split_keeps_empty_fields [of gap_world "''a  b''" "\<lparr>Token = [], Names = []\<rparr>" cli_empty]
    e k s g n r m
  show ?thesis by simp
qed

end
